theory Spec2Isabelle
  imports Complex_Main
begin

section \<open>Numeric values\<close>

text \<open>
  The statistics of \<^verbatim>\<open>allel/stats/admixture.py\<close> are computed by numpy on arrays of
  integers (the allele counts) and of floating-point numbers (everything derived from
  them). The module starts with \<^verbatim>\<open>from __future__ import division\<close>, so every
  \<^verbatim>\<open>/\<close> is true division and yields a floating-point number.

  An integer array has a signed integer type of a fixed width, and numpy computes on it
  modulo two to that width: a product that does not fit wraps around. Integers are
  modelled as \<^typ>\<open>int\<close> with the wrap-around written out (\<open>wrap\<close> below).
  Floating-point numbers are modelled as exact reals extended by the three non-finite
  values numpy produces instead of raising: a division by zero gives an infinity or a
  NaN, and these propagate. Rounding and the sign of zero are not part of the model:
  \<open>Fin r\<close> is to be read as the floating-point number the code computes where exact
  arithmetic gives \<open>r\<close>. The statements below say which operations the code applies to
  which operands; none of them equates two different computations that agree over the
  reals and differ once the results are rounded.
\<close>

datatype npfloat = Fin real | PInf | NInf | NaN

fun f_neg :: "npfloat \<Rightarrow> npfloat" where
  "f_neg (Fin x) = Fin (- x)"
| "f_neg PInf = NInf"
| "f_neg NInf = PInf"
| "f_neg NaN = NaN"

fun f_add :: "npfloat \<Rightarrow> npfloat \<Rightarrow> npfloat" where
  "f_add NaN y = NaN"
| "f_add x NaN = NaN"
| "f_add (Fin x) (Fin y) = Fin (x + y)"
| "f_add PInf NInf = NaN"
| "f_add NInf PInf = NaN"
| "f_add PInf y = PInf"
| "f_add x PInf = PInf"
| "f_add NInf y = NInf"
| "f_add x NInf = NInf"

definition f_sub :: "npfloat \<Rightarrow> npfloat \<Rightarrow> npfloat" where
  "f_sub x y = f_add x (f_neg y)"

fun f_mul :: "npfloat \<Rightarrow> npfloat \<Rightarrow> npfloat" where
  "f_mul NaN y = NaN"
| "f_mul x NaN = NaN"
| "f_mul (Fin x) (Fin y) = Fin (x * y)"
| "f_mul (Fin x) PInf = (if x = 0 then NaN else if 0 < x then PInf else NInf)"
| "f_mul (Fin x) NInf = (if x = 0 then NaN else if 0 < x then NInf else PInf)"
| "f_mul PInf (Fin y) = (if y = 0 then NaN else if 0 < y then PInf else NInf)"
| "f_mul NInf (Fin y) = (if y = 0 then NaN else if 0 < y then NInf else PInf)"
| "f_mul PInf PInf = PInf"
| "f_mul PInf NInf = NInf"
| "f_mul NInf PInf = NInf"
| "f_mul NInf NInf = PInf"

fun f_div :: "npfloat \<Rightarrow> npfloat \<Rightarrow> npfloat" where
  "f_div NaN y = NaN"
| "f_div x NaN = NaN"
| "f_div (Fin x) (Fin y) =
     (if y = 0 then (if x = 0 then NaN else if 0 < x then PInf else NInf)
      else Fin (x / y))"
| "f_div (Fin x) PInf = Fin 0"
| "f_div (Fin x) NInf = Fin 0"
| "f_div PInf (Fin y) = (if 0 \<le> y then PInf else NInf)"
| "f_div NInf (Fin y) = (if 0 \<le> y then NInf else PInf)"
| "f_div PInf PInf = NaN"
| "f_div PInf NInf = NaN"
| "f_div NInf PInf = NaN"
| "f_div NInf NInf = NaN"

fun f_sqrt :: "npfloat \<Rightarrow> npfloat" where
  "f_sqrt (Fin x) = (if x < 0 then NaN else Fin (sqrt x))"
| "f_sqrt PInf = PInf"
| "f_sqrt NInf = NaN"
| "f_sqrt NaN = NaN"

text \<open>An integer used where numpy needs a floating-point number.\<close>

definition of_count :: "int \<Rightarrow> npfloat" where
  "of_count k = Fin (of_int k)"

text \<open>\<^verbatim>\<open>x ** 2\<close> on a floating-point array squares each element.\<close>

definition f_square :: "npfloat \<Rightarrow> npfloat" where
  "f_square x = f_mul x x"

text \<open>
  \<^verbatim>\<open>np.sum\<close> adds the elements up from zero, and \<^verbatim>\<open>np.nansum\<close> does the same with
  every NaN left out. \<^verbatim>\<open>mean\<close> of an array divides its sum by its length.
\<close>

definition np_sum :: "npfloat list \<Rightarrow> npfloat" where
  "np_sum xs = foldr f_add xs (Fin 0)"

definition np_nansum :: "npfloat list \<Rightarrow> npfloat" where
  "np_nansum xs = np_sum (filter (\<lambda>x. x \<noteq> NaN) xs)"

definition np_mean :: "npfloat list \<Rightarrow> npfloat" where
  "np_mean xs = f_div (np_sum xs) (Fin (real (length xs)))"

section \<open>Fixed-width integers\<close>

text \<open>
  \<open>fits w x\<close>: the integer \<open>x\<close> is a value of the signed type of \<open>w\<close> bits.
  \<open>wrap w x\<close>: the value of that type that numpy's arithmetic gives where the exact
  result is \<open>x\<close> (two's complement). \<^verbatim>\<open>sum\<close> of an integer array adds up in numpy's
  default integer type, 64 bits wide, when the type of the array is narrower, and in
  the type of the array otherwise: \<open>acc_bits\<close> is the width of the sums.
\<close>

definition fits :: "nat \<Rightarrow> int \<Rightarrow> bool" where
  "fits w x = (- (2 ^ (w - 1)) \<le> x \<and> x < 2 ^ (w - 1))"

definition wrap :: "nat \<Rightarrow> int \<Rightarrow> int" where
  "wrap w x = (x + 2 ^ (w - 1)) mod 2 ^ w - 2 ^ (w - 1)"

definition acc_bits :: "nat \<Rightarrow> nat" where
  "acc_bits w = (if w < 64 then 64 else w)"

definition int_mul :: "nat \<Rightarrow> int \<Rightarrow> int \<Rightarrow> int" where
  "int_mul w p q = wrap w (p * q)"

definition int_sub :: "nat \<Rightarrow> int \<Rightarrow> int \<Rightarrow> int" where
  "int_sub w p q = wrap w (p - q)"

section \<open>Errors and arrays\<close>

datatype error =
    AssertionError
  | ArgumentError
  | DimensionMismatchError
  | IndexError
  | ZeroDivisionError

text \<open>
  A two-dimensional integer array, as \<^verbatim>\<open>asarray_ndim(ac, 2)\<close> and
  \<^verbatim>\<open>AlleleCountsArray(ac, copy=False)\<close> hand it to the estimators: \<open>bits\<close> is the
  width of its signed integer type (8, 16, 32 or 64), \<open>shape1\<close> is \<^verbatim>\<open>ac.shape[1]\<close> (it
  is there also when the array has no row), and \<open>rows\<close> holds one list of counts per
  variant. Both converters are the identity on this type: inputs of another
  dimensionality are outside it.
\<close>

record acarray =
  bits :: nat
  shape1 :: nat
  rows :: "int list list"

definition shape0 :: "acarray \<Rightarrow> nat" where
  "shape0 ac = length (rows ac)"

definition well_shaped :: "acarray \<Rightarrow> bool" where
  "well_shaped ac = list_all (\<lambda>r. length r = shape1 ac) (rows ac)"

text \<open>The array has one of numpy's signed integer types, and its counts are values of it.\<close>

definition in_dtype :: "acarray \<Rightarrow> bool" where
  "in_dtype ac =
     (bits ac \<in> {8, 16, 32, 64} \<and> list_all (list_all (fits (bits ac))) (rows ac))"

text \<open>\<^verbatim>\<open>ac[:, j]\<close> and \<^verbatim>\<open>ac.sum(axis=1)\<close>.\<close>

definition column :: "nat \<Rightarrow> 'a list list \<Rightarrow> 'a list" where
  "column j rs = map (\<lambda>r. r ! j) rs"

definition sum_axis1 :: "acarray \<Rightarrow> int list" where
  "sum_axis1 ac = map (\<lambda>r. wrap (acc_bits (bits ac)) (sum_list r)) (rows ac)"

text \<open>True division of two integer arrays, element by element.\<close>

definition int_truediv :: "int \<Rightarrow> int \<Rightarrow> npfloat" where
  "int_truediv p q = f_div (of_count p) (of_count q)"

section \<open>Heterozygosity estimator\<close>

text \<open>
  \<^verbatim>\<open>h_hat(ac)\<close>: the assertion on \<^verbatim>\<open>ac.shape[1]\<close>, the allele number of every row, and
  \<^verbatim>\<open>(ac[:, 0] * ac[:, 1]) / (an * (an - 1))\<close>. The product of the two columns is
  computed in the integer type of the array, \<^verbatim>\<open>an - 1\<close> and \<^verbatim>\<open>an * (an - 1)\<close> in the
  integer type of the sums; only the division is a floating-point operation.
\<close>

definition h_hat :: "acarray \<Rightarrow> error + npfloat list" where
  "h_hat ac =
     (if shape1 ac \<noteq> 2 then Inl AssertionError
      else
        let an = sum_axis1 ac;
            x = map2 int_truediv
                  (map2 (int_mul (bits ac)) (column 0 (rows ac)) (column 1 (rows ac)))
                  (map2 (int_mul (acc_bits (bits ac))) an
                     (map (\<lambda>n. int_sub (acc_bits (bits ac)) n 1) an))
        in Inr x)"

section \<open>The allele-counts array type and the alignment check\<close>

text \<open>
  Modelled from the spec: \<^verbatim>\<open>to_frequencies\<close> of the allele-counts array type, which is
  not among the sources. The spec describes it as the frequency conversion, counts to
  fractions by row: every count is divided by the allele number of its row, the sum of
  the counts of the row. A row whose allele number is zero gives NaN, as the comments of
  the blockwise wrappers say.
\<close>

definition to_frequencies :: "acarray \<Rightarrow> npfloat list list" where
  "to_frequencies ac = map (\<lambda>r. map (\<lambda>k. int_truediv k (sum_list r)) r) (rows ac)"

text \<open>
  Modelled from the spec: \<^verbatim>\<open>check_dim0_aligned\<close>, which is not among the sources. The
  spec has it fail with a dimension-mismatch error when the arrays it is given differ in
  the length of their leading dimension.
\<close>

definition check_dim0_aligned :: "acarray list \<Rightarrow> error + unit" where
  "check_dim0_aligned arrays =
     (case arrays of
        [] \<Rightarrow> Inr ()
      | a # bs \<Rightarrow>
          if list_all (\<lambda>b. shape0 b = shape0 a) bs then Inr ()
          else Inl DimensionMismatchError)"

text \<open>A floating-point array divided by an integer array, element by element.\<close>

definition float_div_int :: "npfloat \<Rightarrow> int \<Rightarrow> npfloat" where
  "float_div_int h s = f_div h (of_count s)"

section \<open>Patterson's estimators\<close>

text \<open>
  \<^verbatim>\<open>patterson_f2(aca, acb)\<close>. The checks come in the order of the source: the assertion
  on the columns of \<open>aca\<close>, the one on \<open>acb\<close>, then the alignment check. The estimator is
  \<^verbatim>\<open>((a - b) ** 2) - (ha / sa) - (hb / sb)\<close>.
\<close>

definition patterson_f2 :: "acarray \<Rightarrow> acarray \<Rightarrow> error + npfloat list" where
  "patterson_f2 aca acb =
     (if shape1 aca \<noteq> 2 then Inl AssertionError
      else if shape1 acb \<noteq> 2 then Inl AssertionError
      else case check_dim0_aligned [aca, acb] of
        Inl e \<Rightarrow> Inl e
      | Inr _ \<Rightarrow>
          let sa = sum_axis1 aca;
              sb = sum_axis1 acb
          in case h_hat aca of
            Inl e \<Rightarrow> Inl e
          | Inr ha \<Rightarrow>
              (case h_hat acb of
                 Inl e \<Rightarrow> Inl e
               | Inr hb \<Rightarrow>
                   let a = column 1 (to_frequencies aca);
                       b = column 1 (to_frequencies acb);
                       x = map2 f_sub
                             (map2 f_sub (map f_square (map2 f_sub a b))
                                (map2 float_div_int ha sa))
                             (map2 float_div_int hb sb)
                   in Inr x))"

text \<open>
  \<^verbatim>\<open>patterson_f3(acc, aca, acb)\<close>: \<^verbatim>\<open>T = ((c - a) * (c - b)) - (hc / sc)\<close> and
  \<^verbatim>\<open>B = 2 * hc\<close>.
\<close>

definition patterson_f3 ::
  "acarray \<Rightarrow> acarray \<Rightarrow> acarray \<Rightarrow> error + (npfloat list \<times> npfloat list)" where
  "patterson_f3 acc aca acb =
     (if shape1 aca \<noteq> 2 then Inl AssertionError
      else if shape1 acb \<noteq> 2 then Inl AssertionError
      else if shape1 acc \<noteq> 2 then Inl AssertionError
      else case check_dim0_aligned [aca, acb, acc] of
        Inl e \<Rightarrow> Inl e
      | Inr _ \<Rightarrow>
          let sc = sum_axis1 acc
          in case h_hat acc of
            Inl e \<Rightarrow> Inl e
          | Inr hc \<Rightarrow>
              let a = column 1 (to_frequencies aca);
                  b = column 1 (to_frequencies acb);
                  c = column 1 (to_frequencies acc);
                  T = map2 f_sub (map2 f_mul (map2 f_sub c a) (map2 f_sub c b))
                        (map2 float_div_int hc sc);
                  B = map (f_mul (Fin 2)) hc
              in Inr (T, B))"

text \<open>
  \<^verbatim>\<open>patterson_d(aca, acb, acc, acd)\<close>: \<^verbatim>\<open>num = (a - b) * (c - d)\<close> and
  \<^verbatim>\<open>den = (a + b - (2 * a * b)) * (c + d - (2 * c * d))\<close>.
\<close>

definition d_factor :: "npfloat \<Rightarrow> npfloat \<Rightarrow> npfloat" where
  "d_factor p q = f_sub (f_add p q) (f_mul (f_mul (Fin 2) p) q)"

definition patterson_d ::
  "acarray \<Rightarrow> acarray \<Rightarrow> acarray \<Rightarrow> acarray \<Rightarrow> error + (npfloat list \<times> npfloat list)" where
  "patterson_d aca acb acc acd =
     (if shape1 aca \<noteq> 2 then Inl AssertionError
      else if shape1 acb \<noteq> 2 then Inl AssertionError
      else if shape1 acc \<noteq> 2 then Inl AssertionError
      else if shape1 acd \<noteq> 2 then Inl AssertionError
      else case check_dim0_aligned [aca, acb, acc, acd] of
        Inl e \<Rightarrow> Inl e
      | Inr _ \<Rightarrow>
          let a = column 1 (to_frequencies aca);
              b = column 1 (to_frequencies acb);
              c = column 1 (to_frequencies acc);
              d = column 1 (to_frequencies acd);
              num = map2 f_mul (map2 f_sub a b) (map2 f_sub c d);
              den = map2 f_mul (map2 d_factor a b) (map2 d_factor c d)
          in Inr (num, den))"

text \<open>
  The quantities the statements below speak of, for one row \<open>r\<close> of an allele-count
  array with two columns: the allele number \<open>ref + alt\<close> and the frequency of the
  alternate allele \<open>alt / (ref + alt)\<close>.
\<close>

definition allele_number :: "int list \<Rightarrow> int" where
  "allele_number r = r ! 0 + r ! 1"

definition alt_frequency :: "int list \<Rightarrow> npfloat" where
  "alt_frequency r = int_truediv (r ! 1) (allele_number r)"


text \<open>
  The counts of a row are small enough for the integer arithmetic of \<open>h_hat\<close> not to
  wrap: \<open>ref * alt\<close> is a value of the integer type of the array, and the allele number
  \<open>an\<close>, \<open>an - 1\<close> and \<open>an * (an - 1)\<close> are values of the integer type of the sums.
\<close>

definition row_fits :: "nat \<Rightarrow> int list \<Rightarrow> bool" where
  "row_fits w r =
     (fits w (r ! 0 * r ! 1) \<and>
      fits (acc_bits w) (allele_number r) \<and>
      fits (acc_bits w) (allele_number r - 1) \<and>
      fits (acc_bits w) (allele_number r * (allele_number r - 1)))"

definition no_overflow :: "acarray \<Rightarrow> bool" where
  "no_overflow ac = list_all (row_fits (bits ac)) (rows ac)"

section \<open>Genotype arrays\<close>

text \<open>
  \<^verbatim>\<open>allel/gt.py\<close> works on what \<^verbatim>\<open>np.asarray(g)\<close> returns: an integer array of some
  dimensionality. A two-dimensional array is a table of haploid calls (variants by
  samples); a three-dimensional one holds for every variant and sample a call of
  \<^verbatim>\<open>g.shape[2]\<close> alleles, and carries that number also when it has no call at all.
  Of an array of any other dimensionality only the number of dimensions matters.
\<close>

datatype genotypes =
    Dim2 "int list list"
  | Dim3 nat "int list list list"
  | DimOther nat

definition HAPLOID :: nat where
  "HAPLOID = 1"

definition DIPLOID :: nat where
  "DIPLOID = 2"

text \<open>The calls of an array that is known to have two, or three, dimensions.\<close>

definition calls2 :: "genotypes \<Rightarrow> int list list" where
  "calls2 g = (case g of Dim2 a \<Rightarrow> a | _ \<Rightarrow> [])"

definition calls3 :: "genotypes \<Rightarrow> int list list list" where
  "calls3 g = (case g of Dim3 p a \<Rightarrow> a | _ \<Rightarrow> [])"

text \<open>\<^verbatim>\<open>g[..., k]\<close> on a three-dimensional array: allele \<open>k\<close> of every call.\<close>

definition allele_at :: "nat \<Rightarrow> int list list list \<Rightarrow> int list list" where
  "allele_at k a = map (map (\<lambda>c. c ! k)) a"

text \<open>
  \<^verbatim>\<open>_check_genotype_array(g)\<close>: the array and its ploidy, with the empty ploidy
  dimension of a three-dimensional haploid array dropped, or an ArgumentError when the
  array has neither two nor three dimensions.
\<close>

definition check_genotype_array :: "genotypes \<Rightarrow> error + (genotypes \<times> nat)" where
  "check_genotype_array g =
     (case g of
        Dim2 a \<Rightarrow> Inr (g, HAPLOID)
      | Dim3 ploidy a \<Rightarrow>
          if ploidy = HAPLOID then Inr (Dim2 (allele_at 0 a), ploidy)
          else Inr (g, ploidy)
      | DimOther n \<Rightarrow> Inl ArgumentError)"

text \<open>
  \<^verbatim>\<open>is_called(g)\<close>: \<^verbatim>\<open>g >= 0\<close> for haploid calls,
  \<^verbatim>\<open>(allele1 >= 0) & (allele2 >= 0)\<close> for diploid ones, and
  \<^verbatim>\<open>np.all(g >= 0, axis=DIM_PLOIDY)\<close> otherwise.
\<close>

definition is_called :: "genotypes \<Rightarrow> error + bool list list" where
  "is_called g0 =
     (case check_genotype_array g0 of
        Inl e \<Rightarrow> Inl e
      | Inr (g, ploidy) \<Rightarrow>
          if ploidy = HAPLOID then
            Inr (map (map (\<lambda>x. 0 \<le> x)) (calls2 g))
          else if ploidy = DIPLOID then
            (let allele1 = allele_at 0 (calls3 g);
                 allele2 = allele_at 1 (calls3 g)
             in Inr (map2 (map2 (\<lambda>x y. 0 \<le> x \<and> 0 \<le> y)) allele1 allele2))
          else
            Inr (map (map (\<lambda>c. list_all (\<lambda>x. 0 \<le> x) c)) (calls3 g)))"

text \<open>
  \<^verbatim>\<open>is_missing(g)\<close>: \<^verbatim>\<open>g < 0\<close> for haploid calls,
  \<^verbatim>\<open>(allele1 < 0) | (allele2 < 0)\<close> for diploid ones, and
  \<^verbatim>\<open>np.any(g < 0, axis=DIM_PLOIDY)\<close> otherwise.
\<close>

definition is_missing :: "genotypes \<Rightarrow> error + bool list list" where
  "is_missing g0 =
     (case check_genotype_array g0 of
        Inl e \<Rightarrow> Inl e
      | Inr (g, ploidy) \<Rightarrow>
          if ploidy = HAPLOID then
            Inr (map (map (\<lambda>x. x < 0)) (calls2 g))
          else if ploidy = DIPLOID then
            (let allele1 = allele_at 0 (calls3 g);
                 allele2 = allele_at 1 (calls3 g)
             in Inr (map2 (map2 (\<lambda>x y. x < 0 \<or> y < 0)) allele1 allele2))
          else
            Inr (map (map (\<lambda>c. list_ex (\<lambda>x. x < 0) c)) (calls3 g)))"

text \<open>
  A genotype array the predicates accept: it has two or three dimensions, and in a
  three-dimensional array every call has as many alleles as the shape says.
\<close>

fun valid_genotypes :: "genotypes \<Rightarrow> bool" where
  "valid_genotypes (Dim2 a) = True"
| "valid_genotypes (Dim3 p a) = list_all (list_all (\<lambda>c. length c = p)) a"
| "valid_genotypes (DimOther n) = False"

text \<open>The number of variants of a genotype array.\<close>

fun n_variants :: "genotypes \<Rightarrow> nat" where
  "n_variants (Dim2 a) = length a"
| "n_variants (Dim3 p a) = length a"
| "n_variants (DimOther n) = 0"

text \<open>
  The genotype calls of an array, one list of alleles per variant and sample: a haploid
  call of a two-dimensional array is its one allele.
\<close>

fun calls_of :: "genotypes \<Rightarrow> int list list list" where
  "calls_of (Dim2 a) = map (map (\<lambda>x. [x])) a"
| "calls_of (Dim3 p a) = a"
| "calls_of (DimOther n) = []"

section \<open>Masked arrays\<close>

text \<open>
  A numpy masked array: the data and, for every element, whether it is masked. The
  \<^verbatim>\<open>nomask\<close> that \<^verbatim>\<open>np.ma.asarray\<close> gives a plain array is written as a mask that is
  False everywhere; \<open>clear_mask\<close> is the assignment
  \<^verbatim>\<open>m.mask = np.zeros(m.shape, dtype=bool)\<close> and \<open>set_mask\<close> the assignment
  \<^verbatim>\<open>m.mask[i] = b\<close>, which raises an IndexError when \<open>i\<close> is out of range.
\<close>

record masked =
  data :: "npfloat list"
  mask :: "bool list"

definition ma_asarray :: "npfloat list \<Rightarrow> masked" where
  "ma_asarray v = \<lparr>data = v, mask = replicate (length v) False\<rparr>"

definition clear_mask :: "masked \<Rightarrow> masked" where
  "clear_mask m = m\<lparr>mask := replicate (length (data m)) False\<rparr>"

definition set_mask :: "nat \<Rightarrow> bool \<Rightarrow> masked \<Rightarrow> error + masked" where
  "set_mask i b m =
     (if i < length (mask m) then Inr (m\<lparr>mask := (mask m)[i := b]\<rparr>)
      else Inl IndexError)"

text \<open>\<^verbatim>\<open>for m in masked_values: m.mask[i] = b\<close>.\<close>

fun set_mask_all :: "nat \<Rightarrow> bool \<Rightarrow> masked list \<Rightarrow> error + masked list" where
  "set_mask_all i b [] = Inr []"
| "set_mask_all i b (m # ms) =
     (case set_mask i b m of
        Inl e \<Rightarrow> Inl e
      | Inr m' \<Rightarrow>
          (case set_mask_all i b ms of
             Inl e \<Rightarrow> Inl e
           | Inr ms' \<Rightarrow> Inr (m' # ms')))"

text \<open>
  The elements that are not masked, and the sum numpy computes over them. When every
  element is masked numpy returns its masked constant, which stands for no value at
  all; the model writes NaN for it.
\<close>

definition ma_compressed :: "masked \<Rightarrow> npfloat list" where
  "ma_compressed m = map fst (filter (\<lambda>(x, b). \<not> b) (zip (data m) (mask m)))"

definition ma_sum :: "masked \<Rightarrow> npfloat" where
  "ma_sum m = (if ma_compressed m = [] then NaN else np_sum (ma_compressed m))"

section \<open>Delete-one jackknife\<close>

text \<open>
  \<^verbatim>\<open>jackknife(values, statistic)\<close> takes one series or a tuple of series. The statistic
  is a function of its positional arguments: \<^verbatim>\<open>statistic(*masked_values)\<close> is the
  statistic applied to the list of masked arrays, and \<^verbatim>\<open>statistic(masked_values)\<close> is
  the statistic applied to the list of the one masked array. It is taken to be a pure
  function that returns a number for every argument.
\<close>

datatype jk_values = Single "npfloat list" | Tuple "npfloat list list"

type_synonym statistic = "masked list \<Rightarrow> npfloat"

text \<open>
  The first lines of \<^verbatim>\<open>jackknife\<close>: \<open>n\<close> and the masked arrays with their masks
  cleared. \<^verbatim>\<open>values[0]\<close> of an empty tuple raises an IndexError.
\<close>

definition jackknife_init :: "jk_values \<Rightarrow> error + (nat \<times> masked list)" where
  "jackknife_init values =
     (case values of
        Tuple vs \<Rightarrow>
          (case vs of
             [] \<Rightarrow> Inl IndexError
           | v0 # _ \<Rightarrow> Inr (length v0, map (\<lambda>v. clear_mask (ma_asarray v)) vs))
      | Single v \<Rightarrow> Inr (length v, [clear_mask (ma_asarray v)]))"

text \<open>
  The loop \<^verbatim>\<open>for i in range(n)\<close>, over the indices still to visit, with the masked
  arrays and the replicates collected so far as its state: mask element \<open>i\<close> of every
  array, compute the statistic, unmask element \<open>i\<close>, append the replicate.
\<close>

fun jackknife_loop ::
  "statistic \<Rightarrow> nat list \<Rightarrow> masked list \<Rightarrow> npfloat list \<Rightarrow> error + (masked list \<times> npfloat list)"
where
  "jackknife_loop stat [] ms vj = Inr (ms, vj)"
| "jackknife_loop stat (i # is) ms vj =
     (case set_mask_all i True ms of
        Inl e \<Rightarrow> Inl e
      | Inr ms1 \<Rightarrow>
          let x = stat ms1
          in (case set_mask_all i False ms1 of
                Inl e \<Rightarrow> Inl e
              | Inr ms2 \<Rightarrow> jackknife_loop stat is ms2 (vj @ [x])))"

text \<open>
  \<^verbatim>\<open>jackknife\<close> up to the end of its loop: \<open>n\<close>, the masked arrays as the loop leaves
  them, and the replicates.
\<close>

definition jackknife_replicates ::
  "jk_values \<Rightarrow> statistic \<Rightarrow> error + (nat \<times> masked list \<times> npfloat list)" where
  "jackknife_replicates values stat =
     (case jackknife_init values of
        Inl e \<Rightarrow> Inl e
      | Inr (n, masked_values) \<Rightarrow>
          (case jackknife_loop stat [0..<n] masked_values [] of
             Inl e \<Rightarrow> Inl e
           | Inr (ms, vj) \<Rightarrow> Inr (n, ms, vj)))"

text \<open>
  The whole of \<^verbatim>\<open>jackknife\<close>: \<^verbatim>\<open>m = vj.mean()\<close>,
  \<^verbatim>\<open>sv = ((n - 1) / n) * np.sum((vj - m) ** 2)\<close> and \<^verbatim>\<open>se = np.sqrt(sv)\<close>. Here \<open>n\<close> is
  a Python integer, so \<^verbatim>\<open>(n - 1) / n\<close> raises a ZeroDivisionError when \<open>n\<close> is zero.
\<close>

definition jackknife ::
  "jk_values \<Rightarrow> statistic \<Rightarrow> error + (npfloat \<times> npfloat \<times> npfloat list)" where
  "jackknife values stat =
     (case jackknife_replicates values stat of
        Inl e \<Rightarrow> Inl e
      | Inr (n, ms, vj) \<Rightarrow>
          let m = np_mean vj
          in if n = 0 then Inl ZeroDivisionError
             else
               let sv = f_mul (Fin ((real n - 1) / real n))
                          (np_sum (map (\<lambda>x. f_square (f_sub x m)) vj));
                   se = f_sqrt sv
               in Inr (m, se, vj))"

text \<open>
  The inputs the jackknife is written for, its series, their common length, and a
  series with nothing masked or with exactly element \<open>i\<close> masked.
\<close>

fun series :: "jk_values \<Rightarrow> npfloat list list" where
  "series (Single v) = [v]"
| "series (Tuple vs) = vs"

definition series_length :: "jk_values \<Rightarrow> nat" where
  "series_length values = (case series values of [] \<Rightarrow> 0 | v0 # _ \<Rightarrow> length v0)"

definition valid_values :: "jk_values \<Rightarrow> bool" where
  "valid_values values =
     (series values \<noteq> [] \<and> list_all (\<lambda>v. length v = series_length values) (series values))"

definition unmasked :: "npfloat list \<Rightarrow> masked" where
  "unmasked v = \<lparr>data = v, mask = replicate (length v) False\<rparr>"

definition masked_at :: "nat \<Rightarrow> npfloat list \<Rightarrow> masked" where
  "masked_at i v = \<lparr>data = v, mask = (replicate (length v) False)[i := True]\<rparr>"

section \<open>Blockwise statistics\<close>

text \<open>
  Modelled from the spec: \<^verbatim>\<open>moving_statistic\<close> of \<^verbatim>\<open>allel.stats.window\<close>, which is not
  among the sources. The spec describes it as the utility that, given a series, a block
  length and an aggregation function, returns the aggregate of every non-overlapping
  contiguous block of that many consecutive elements. The spec leaves open whether a
  shorter block at the end is kept; here it is dropped, and the statements below speak
  only of block lengths that divide the length of the series. A block length of zero
  gives no block.
\<close>

function windows :: "nat \<Rightarrow> 'a list \<Rightarrow> 'a list list" where
  "windows blen xs =
     (if blen = 0 \<or> length xs < blen then []
      else take blen xs # windows blen (drop blen xs))"
  by pat_completeness auto
termination
  by (relation "measure (\<lambda>(blen, xs). length xs)") auto

declare windows.simps [simp del]

definition moving_statistic ::
  "npfloat list \<Rightarrow> (npfloat list \<Rightarrow> npfloat) \<Rightarrow> nat \<Rightarrow> npfloat list" where
  "moving_statistic vs statistic blen = map statistic (windows blen vs)"

text \<open>The statistic \<^verbatim>\<open>lambda n, d: np.sum(n) / np.sum(d)\<close> of the blockwise wrappers.\<close>

definition ratio_of_sums :: statistic where
  "ratio_of_sums args = f_div (ma_sum (args ! 0)) (ma_sum (args ! 1))"

text \<open>
  \<^verbatim>\<open>blockwise_patterson_d(aca, acb, acc, acd, blen)\<close>: the block sums of the numerator
  and of the denominator, their ratio per block, the jackknife over the block sums, and
  \<^verbatim>\<open>z = m / se\<close>.
\<close>

definition blockwise_patterson_d ::
  "acarray \<Rightarrow> acarray \<Rightarrow> acarray \<Rightarrow> acarray \<Rightarrow> nat \<Rightarrow>
     error + (npfloat \<times> npfloat \<times> npfloat \<times> npfloat list \<times> npfloat list)" where
  "blockwise_patterson_d aca acb acc acd blen =
     (case patterson_d aca acb acc acd of
        Inl e \<Rightarrow> Inl e
      | Inr (num, den) \<Rightarrow>
          let num_bsum = moving_statistic num np_nansum blen;
              den_bsum = moving_statistic den np_nansum blen;
              vb = map2 f_div num_bsum den_bsum
          in case jackknife (Tuple [num_bsum, den_bsum]) ratio_of_sums of
            Inl e \<Rightarrow> Inl e
          | Inr (m, se, vj) \<Rightarrow>
              let z = f_div m se
              in Inr (m, se, z, vb, vj))"

section \<open>Properties of the heterozygosity estimator\<close>

lemma sum_list_pair: "length r = 2 \<Longrightarrow> sum_list r = r ! 0 + r ! 1"
  by (cases r; cases "tl r") auto

lemma wrap_fits:
  assumes "0 < w" and "fits w x"
  shows "wrap w x = x"
proof -
  from assms(1) obtain k where k: "w = Suc k"
    by (cases w) simp_all
  have "0 \<le> x + 2 ^ k" and "x + 2 ^ k < 2 ^ Suc k"
    using assms(2) by (simp_all add: fits_def k)
  then have "(x + 2 ^ k) mod 2 ^ Suc k = x + 2 ^ k"
    by (simp only: mod_pos_pos_trivial)
  then show ?thesis
    by (simp add: wrap_def k)
qed

lemma acc_bits_pos: "0 < acc_bits w"
  by (simp add: acc_bits_def)

lemma in_dtype_bits: "in_dtype ac \<Longrightarrow> 0 < bits ac"
  by (auto simp: in_dtype_def)

lemma row_length:
  "well_shaped ac \<Longrightarrow> shape1 ac = 2 \<Longrightarrow> i < length (rows ac) \<Longrightarrow> length (rows ac ! i) = 2"
  by (simp add: well_shaped_def list_all_length)

lemma no_overflow_nth:
  "no_overflow ac \<Longrightarrow> i < length (rows ac) \<Longrightarrow> row_fits (bits ac) (rows ac ! i)"
  by (simp add: no_overflow_def list_all_length)

lemma length_column: "length (column j rs) = length rs"
  by (simp add: column_def)

lemma length_sum_axis1: "length (sum_axis1 ac) = length (rows ac)"
  by (simp add: sum_axis1_def)

lemma sum_axis1_nth:
  assumes "well_shaped ac" and "shape1 ac = 2" and "no_overflow ac" and "i < length (rows ac)"
  shows "sum_axis1 ac ! i = allele_number (rows ac ! i)"
proof -
  have "sum_list (rows ac ! i) = allele_number (rows ac ! i)"
    using row_length [OF assms(1,2,4)] by (simp add: sum_list_pair allele_number_def)
  moreover have "fits (acc_bits (bits ac)) (allele_number (rows ac ! i))"
    using no_overflow_nth [OF assms(3,4)] by (simp add: row_fits_def)
  ultimately show ?thesis
    using assms(4) by (simp add: sum_axis1_def wrap_fits [OF acc_bits_pos])
qed

lemma h_hat_row:
  assumes "0 < w" and "row_fits w r"
  shows "int_truediv (int_mul w (r ! 0) (r ! 1))
           (int_mul (acc_bits w) (allele_number r) (int_sub (acc_bits w) (allele_number r) 1)) =
         int_truediv (r ! 0 * r ! 1) (allele_number r * (allele_number r - 1))"
proof -
  have "int_mul w (r ! 0) (r ! 1) = r ! 0 * r ! 1"
    using assms by (simp add: int_mul_def row_fits_def wrap_fits)
  moreover have "int_sub (acc_bits w) (allele_number r) 1 = allele_number r - 1"
    using assms(2) by (simp add: int_sub_def row_fits_def wrap_fits [OF acc_bits_pos])
  moreover have "int_mul (acc_bits w) (allele_number r) (allele_number r - 1) =
      allele_number r * (allele_number r - 1)"
    using assms(2) by (simp add: int_mul_def row_fits_def wrap_fits [OF acc_bits_pos])
  ultimately show ?thesis
    by simp
qed

lemma h_hat_Inr:
  assumes "shape1 ac = 2"
  shows "\<exists>x. h_hat ac = Inr x \<and> length x = length (rows ac) \<and>
           (\<forall>i < length (rows ac).
              x ! i = int_truediv (int_mul (bits ac) (rows ac ! i ! 0) (rows ac ! i ! 1))
                (int_mul (acc_bits (bits ac)) (sum_axis1 ac ! i)
                   (int_sub (acc_bits (bits ac)) (sum_axis1 ac ! i) 1))) \<and>
           (well_shaped ac \<and> in_dtype ac \<and> no_overflow ac \<longrightarrow>
              (\<forall>i < length (rows ac).
                 x ! i = int_truediv (rows ac ! i ! 0 * rows ac ! i ! 1)
                   (allele_number (rows ac ! i) * (allele_number (rows ac ! i) - 1))))"
proof -
  let ?x = "map2 int_truediv
              (map2 (int_mul (bits ac)) (column 0 (rows ac)) (column 1 (rows ac)))
              (map2 (int_mul (acc_bits (bits ac))) (sum_axis1 ac)
                 (map (\<lambda>n. int_sub (acc_bits (bits ac)) n 1) (sum_axis1 ac)))"
  have res: "h_hat ac = Inr ?x"
    using assms by (simp add: h_hat_def Let_def)
  have len: "length ?x = length (rows ac)"
    by (simp add: length_column length_sum_axis1)
  have raw: "?x ! i = int_truediv (int_mul (bits ac) (rows ac ! i ! 0) (rows ac ! i ! 1))
      (int_mul (acc_bits (bits ac)) (sum_axis1 ac ! i)
         (int_sub (acc_bits (bits ac)) (sum_axis1 ac ! i) 1))"
    if "i < length (rows ac)" for i
    using that by (simp add: length_column length_sum_axis1 column_def)
  have at: "?x ! i = int_truediv (rows ac ! i ! 0 * rows ac ! i ! 1)
      (allele_number (rows ac ! i) * (allele_number (rows ac ! i) - 1))"
    if "well_shaped ac" and "in_dtype ac" and "no_overflow ac" and "i < length (rows ac)" for i
    using raw [OF that(4)] sum_axis1_nth [OF that(1) assms that(3,4)]
      h_hat_row [OF in_dtype_bits [OF that(2)] no_overflow_nth [OF that(3,4)]]
    by simp
  show ?thesis
    using res len raw at by blast
qed




text \<open>
  The same on a 64-bit array: on the row \<open>(2\<^sup>3\<^sup>2, 2\<^sup>3\<^sup>2)\<close> the product of the counts wraps
  to zero and \<open>an * (an - 1)\<close> to \<open>- 2\<^sup>3\<^sup>3\<close>, so the code returns zero where the quotient
  of the exact products is about 0.25.
\<close>

lemma h_hat_wraps_int64:
  "in_dtype \<lparr>bits = 64, shape1 = 2, rows = [[4294967296, 4294967296]]\<rparr> \<and>
   h_hat \<lparr>bits = 64, shape1 = 2, rows = [[4294967296, 4294967296]]\<rparr> = Inr [Fin 0]"
  by (simp add: in_dtype_def fits_def h_hat_def sum_axis1_def column_def
      int_mul_def int_sub_def wrap_def acc_bits_def int_truediv_def of_count_def)

section \<open>Properties of Patterson's estimators\<close>

lemma length_to_frequencies: "length (to_frequencies ac) = length (rows ac)"
  by (simp add: to_frequencies_def)

lemma alt_frequency_nth:
  assumes "well_shaped ac" and "shape1 ac = 2" and "i < length (rows ac)"
  shows "column 1 (to_frequencies ac) ! i = alt_frequency (rows ac ! i)"
proof -
  have "length (rows ac ! i) = 2"
    using assms by (rule row_length)
  then show ?thesis
    using assms(3)
    by (simp add: column_def to_frequencies_def alt_frequency_def allele_number_def sum_list_pair)
qed












text \<open>
  Where the integer arithmetic wraps, the value of \<open>h_hat\<close> can be zero on a row with
  both alleles, and \<open>patterson_f2 A A\<close> with it: the last part of the statement needs
  its hypothesis.
\<close>

lemma patterson_f2_self_wraps:
  "patterson_f2 \<lparr>bits = 64, shape1 = 2, rows = [[4294967296, 4294967296]]\<rparr>
       \<lparr>bits = 64, shape1 = 2, rows = [[4294967296, 4294967296]]\<rparr> = Inr [Fin 0]"
  by (simp add: patterson_f2_def h_hat_def check_dim0_aligned_def shape0_def sum_axis1_def
      acc_bits_def int_mul_def int_sub_def wrap_def column_def to_frequencies_def
      int_truediv_def of_count_def float_div_int_def f_sub_def f_square_def)

text \<open>
  C5. For a triplet of row-aligned allele-count arrays with two columns each,
  \<open>patterson_f3 C A B\<close> returns two arrays with one value per variant:
  \<open>T = (c - a) * (c - b) - hC / sC\<close> and \<open>B = 2 * hC\<close>, with \<open>a\<close>, \<open>b\<close>, \<open>c\<close> the frequencies
  of the alternate allele, \<open>hC\<close> the value \<open>h_hat\<close> returns on C and \<open>sC\<close> the allele number
  of C as the code computes it, the sum of the row, which is \<open>ref + alt\<close> unless the sum
  wraps.
\<close>

theorem patterson_f3_formula:
  assumes "well_shaped acc" and "well_shaped aca" and "well_shaped acb"
    and "shape1 acc = 2" and "shape1 aca = 2" and "shape1 acb = 2"
    and "shape0 aca = shape0 acc" and "shape0 acb = shape0 acc"
  shows "\<exists>T B hc. patterson_f3 acc aca acb = Inr (T, B) \<and> h_hat acc = Inr hc \<and>
           length T = shape0 acc \<and> length B = shape0 acc \<and>
           (\<forall>i < shape0 acc.
              T ! i =
                f_sub
                  (f_mul
                     (f_sub (alt_frequency (rows acc ! i)) (alt_frequency (rows aca ! i)))
                     (f_sub (alt_frequency (rows acc ! i)) (alt_frequency (rows acb ! i))))
                  (f_div (hc ! i) (of_count (sum_axis1 acc ! i))) \<and>
              B ! i = f_mul (Fin 2) (hc ! i)) \<and>
           (no_overflow acc \<longrightarrow>
              (\<forall>i < shape0 acc. sum_axis1 acc ! i = allele_number (rows acc ! i)))"
proof -
  obtain hc where hc: "h_hat acc = Inr hc" "length hc = length (rows acc)"
    using h_hat_Inr [OF assms(4)] by blast
  let ?a = "column 1 (to_frequencies aca)" and ?b = "column 1 (to_frequencies acb)"
    and ?c = "column 1 (to_frequencies acc)"
  let ?T = "map2 f_sub (map2 f_mul (map2 f_sub ?c ?a) (map2 f_sub ?c ?b))
              (map2 float_div_int hc (sum_axis1 acc))"
  let ?B = "map (f_mul (Fin 2)) hc"
  have n: "length (rows aca) = length (rows acc)" "length (rows acb) = length (rows acc)"
    using assms(7,8) by (simp_all add: shape0_def)
  have "check_dim0_aligned [aca, acb, acc] = Inr ()"
    using assms(7,8) by (simp add: check_dim0_aligned_def)
  then have res: "patterson_f3 acc aca acb = Inr (?T, ?B)"
    using assms(4,5,6) hc(1) by (simp add: patterson_f3_def Let_def)
  have len: "length ?T = shape0 acc" "length ?B = shape0 acc"
    using hc(2) n
    by (simp_all add: shape0_def length_column length_to_frequencies length_sum_axis1)
  have at: "?T ! i =
      f_sub
        (f_mul
           (f_sub (alt_frequency (rows acc ! i)) (alt_frequency (rows aca ! i)))
           (f_sub (alt_frequency (rows acc ! i)) (alt_frequency (rows acb ! i))))
        (f_div (hc ! i) (of_count (sum_axis1 acc ! i))) \<and>
      ?B ! i = f_mul (Fin 2) (hc ! i)"
    if "i < shape0 acc" for i
  proof -
    have i: "i < length (rows acc)" "i < length (rows aca)" "i < length (rows acb)"
      using that n by (simp_all add: shape0_def)
    show ?thesis
      using i hc(2)
        alt_frequency_nth [OF assms(1,4) i(1)] alt_frequency_nth [OF assms(2,5) i(2)]
        alt_frequency_nth [OF assms(3,6) i(3)]
      by (simp add: length_column length_to_frequencies length_sum_axis1 float_div_int_def)
  qed
  have sc: "sum_axis1 acc ! i = allele_number (rows acc ! i)"
    if "no_overflow acc" and "i < shape0 acc" for i
    using sum_axis1_nth [OF assms(1,4) that(1)] that(2) by (simp add: shape0_def)
  show ?thesis
    using res hc(1) len at sc by blast
qed

theorem patterson_f3_formula_witness:
  "well_shaped \<lparr>bits = 32, shape1 = 2, rows = [[3, 1], [2, 2]]\<rparr> \<and>
   well_shaped \<lparr>bits = 32, shape1 = 2, rows = [[1, 3], [4, 0]]\<rparr> \<and>
   well_shaped \<lparr>bits = 32, shape1 = 2, rows = [[1, 1], [0, 0]]\<rparr> \<and>
   no_overflow \<lparr>bits = 32, shape1 = 2, rows = [[3, 1], [2, 2]]\<rparr> \<and>
   patterson_f3 \<lparr>bits = 32, shape1 = 2, rows = [[3, 1], [2, 2]]\<rparr>
       \<lparr>bits = 32, shape1 = 2, rows = [[1, 3], [4, 0]]\<rparr>
       \<lparr>bits = 32, shape1 = 2, rows = [[1, 1], [0, 0]]\<rparr> =
     Inr ([Fin (1 / 16), NaN], [Fin (1 / 2), Fin (2 / 3)])"
  using patterson_f3_formula [of "\<lparr>bits = 32, shape1 = 2, rows = [[3, 1], [2, 2]]\<rparr>"
      "\<lparr>bits = 32, shape1 = 2, rows = [[1, 3], [4, 0]]\<rparr>"
      "\<lparr>bits = 32, shape1 = 2, rows = [[1, 1], [0, 0]]\<rparr>"]
  by (simp add: patterson_f3_def h_hat_def check_dim0_aligned_def shape0_def sum_axis1_def
      well_shaped_def no_overflow_def row_fits_def fits_def allele_number_def acc_bits_def
      int_mul_def int_sub_def wrap_def column_def to_frequencies_def int_truediv_def
      of_count_def float_div_int_def f_sub_def)

lemma f_sub_swap: "f_sub q p = f_neg (f_sub p q)"
  by (cases p; cases q) (simp_all add: f_sub_def)

lemma f_mul_neg_left: "f_mul (f_neg x) y = f_neg (f_mul x y)"
  by (cases x; cases y) simp_all

lemma f_add_commute: "f_add p q = f_add q p"
  by (cases p; cases q) simp_all

lemma f_mul2_swap: "f_mul (f_mul (Fin 2) p) q = f_mul (f_mul (Fin 2) q) p"
  by (cases p; cases q) simp_all

lemma d_factor_commute: "d_factor p q = d_factor q p"
  by (simp add: d_factor_def f_add_commute [of p q] f_mul2_swap [of p q])

lemma map2_commute: "(\<And>x y. f x y = f y x) \<Longrightarrow> map2 f xs ys = map2 f ys xs"
  by (induction xs arbitrary: ys) (auto simp: zip_Cons1 split: list.splits) 

lemma map2_f_sub_swap: "map2 f_sub ys xs = map f_neg (map2 f_sub xs ys)"
proof (rule nth_equalityI)
  show "length (map2 f_sub ys xs) = length (map f_neg (map2 f_sub xs ys))"
    by (simp add: min.commute)
next
  fix i
  assume "i < length (map2 f_sub ys xs)"
  then have "i < length xs" "i < length ys"
    by simp_all
  then show "map2 f_sub ys xs ! i = map f_neg (map2 f_sub xs ys) ! i"
    using f_sub_swap [of "ys ! i" "xs ! i"] by simp
qed

lemma map2_f_mul_neg: "map2 f_mul (map f_neg xs) ys = map f_neg (map2 f_mul xs ys)"
proof (induction xs arbitrary: ys)
  case Nil
  then show ?case by simp
next
  case (Cons x xs)
  then show ?case
    by (cases ys) (simp_all add: f_mul_neg_left)
qed

text \<open>
  C6. For four row-aligned allele-count arrays with two columns each, exchanging the
  first two arguments of \<open>patterson_d\<close> negates every numerator and leaves every
  denominator as it is. Equality is the identity of values: a NaN stays a NaN.
\<close>

theorem patterson_d_antisymmetry:
  assumes "shape1 aca = 2" and "shape1 acb = 2" and "shape1 acc = 2" and "shape1 acd = 2"
    and "shape0 acb = shape0 aca" and "shape0 acc = shape0 aca" and "shape0 acd = shape0 aca"
  shows "\<exists>num den. patterson_d aca acb acc acd = Inr (num, den) \<and>
           patterson_d acb aca acc acd = Inr (map f_neg num, den) \<and>
           length num = shape0 aca \<and> length den = shape0 aca"
proof -
  let ?a = "column 1 (to_frequencies aca)" and ?b = "column 1 (to_frequencies acb)"
    and ?c = "column 1 (to_frequencies acc)" and ?d = "column 1 (to_frequencies acd)"
  let ?num = "map2 f_mul (map2 f_sub ?a ?b) (map2 f_sub ?c ?d)"
  let ?den = "map2 f_mul (map2 d_factor ?a ?b) (map2 d_factor ?c ?d)"
  have ab: "patterson_d aca acb acc acd = Inr (?num, ?den)"
    using assms by (simp add: patterson_d_def check_dim0_aligned_def Let_def)
  have ba: "patterson_d acb aca acc acd =
      Inr (map2 f_mul (map2 f_sub ?b ?a) (map2 f_sub ?c ?d),
           map2 f_mul (map2 d_factor ?b ?a) (map2 d_factor ?c ?d))"
    using assms by (simp add: patterson_d_def check_dim0_aligned_def Let_def)
  have num: "map2 f_mul (map2 f_sub ?b ?a) (map2 f_sub ?c ?d) = map f_neg ?num"
    by (simp only: map2_f_sub_swap [of ?b ?a] map2_f_mul_neg)
  have den: "map2 d_factor ?b ?a = map2 d_factor ?a ?b"
    by (rule map2_commute) (rule d_factor_commute)
  have len: "length ?num = shape0 aca" "length ?den = shape0 aca"
    using assms(5,6,7) by (simp_all add: shape0_def length_column length_to_frequencies)
  show ?thesis
    using ab ba num den len by simp
qed


theorem patterson_d_antisymmetry_witness:
  "patterson_d \<lparr>bits = 32, shape1 = 2, rows = [[3, 1], [2, 2]]\<rparr> \<lparr>bits = 32, shape1 = 2, rows = [[1, 3], [4, 0]]\<rparr>
       \<lparr>bits = 32, shape1 = 2, rows = [[1, 1], [0, 0]]\<rparr> \<lparr>bits = 32, shape1 = 2, rows = [[0, 2], [1, 3]]\<rparr> =
     Inr ([Fin (1 / 4), NaN], [Fin (5 / 16), NaN]) \<and>
   patterson_d \<lparr>bits = 32, shape1 = 2, rows = [[1, 3], [4, 0]]\<rparr> \<lparr>bits = 32, shape1 = 2, rows = [[3, 1], [2, 2]]\<rparr>
       \<lparr>bits = 32, shape1 = 2, rows = [[1, 1], [0, 0]]\<rparr> \<lparr>bits = 32, shape1 = 2, rows = [[0, 2], [1, 3]]\<rparr> =
     Inr ([Fin (- (1 / 4)), NaN], [Fin (5 / 16), NaN])"
  using patterson_d_antisymmetry [of "\<lparr>bits = 32, shape1 = 2, rows = [[3, 1], [2, 2]]\<rparr>"
      "\<lparr>bits = 32, shape1 = 2, rows = [[1, 3], [4, 0]]\<rparr>" "\<lparr>bits = 32, shape1 = 2, rows = [[1, 1], [0, 0]]\<rparr>"
      "\<lparr>bits = 32, shape1 = 2, rows = [[0, 2], [1, 3]]\<rparr>"]
  by (simp add: patterson_d_def check_dim0_aligned_def shape0_def
      column_def to_frequencies_def int_truediv_def of_count_def d_factor_def f_sub_def)

text \<open>
  C7, as stated, fails: on an array with three columns the assertion of \<open>h_hat\<close> raises
  an AssertionError, which is not the ArgumentError of the claim.
\<close>

theorem wrong_columns_not_argument_error:
  "h_hat \<lparr>bits = 32, shape1 = 3, rows = [[1, 2, 3]]\<rparr> = Inl AssertionError \<and>
   h_hat \<lparr>bits = 32, shape1 = 3, rows = [[1, 2, 3]]\<rparr> \<noteq> Inl ArgumentError"
  by (simp add: h_hat_def)

text \<open>
  C7, amended. When an input array does not have exactly two columns, each of \<open>h_hat\<close>,
  \<open>patterson_f2\<close>, \<open>patterson_f3\<close> and \<open>patterson_d\<close> fails with an AssertionError and
  returns no result, whichever argument the array is and whatever the other arguments.
\<close>

theorem wrong_columns_assertion:
  assumes "shape1 ac \<noteq> 2"
  shows "h_hat ac = Inl AssertionError \<and>
         patterson_f2 ac p = Inl AssertionError \<and>
         patterson_f2 p ac = Inl AssertionError \<and>
         patterson_f3 ac p q = Inl AssertionError \<and>
         patterson_f3 p ac q = Inl AssertionError \<and>
         patterson_f3 p q ac = Inl AssertionError \<and>
         patterson_d ac p q r = Inl AssertionError \<and>
         patterson_d p ac q r = Inl AssertionError \<and>
         patterson_d p q ac r = Inl AssertionError \<and>
         patterson_d p q r ac = Inl AssertionError"
  using assms by (simp add: h_hat_def patterson_f2_def patterson_f3_def patterson_d_def)

theorem wrong_columns_assertion_witness:
  "shape1 \<lparr>bits = 32, shape1 = 3, rows = [[1, 2, 3]]\<rparr> \<noteq> 2 \<and>
   h_hat \<lparr>bits = 32, shape1 = 3, rows = [[1, 2, 3]]\<rparr> = Inl AssertionError \<and>
   patterson_f2 \<lparr>bits = 32, shape1 = 2, rows = [[3, 1]]\<rparr> \<lparr>bits = 32, shape1 = 3, rows = [[1, 2, 3]]\<rparr> =
     Inl AssertionError \<and>
   patterson_f3 \<lparr>bits = 32, shape1 = 2, rows = [[3, 1]]\<rparr> \<lparr>bits = 32, shape1 = 2, rows = [[2, 2]]\<rparr>
       \<lparr>bits = 32, shape1 = 3, rows = [[1, 2, 3]]\<rparr> = Inl AssertionError \<and>
   patterson_d \<lparr>bits = 32, shape1 = 2, rows = [[3, 1]]\<rparr> \<lparr>bits = 32, shape1 = 2, rows = [[2, 2]]\<rparr>
       \<lparr>bits = 32, shape1 = 2, rows = [[1, 1]]\<rparr> \<lparr>bits = 32, shape1 = 3, rows = [[1, 2, 3]]\<rparr> = Inl AssertionError"
  using wrong_columns_assertion [of "\<lparr>bits = 32, shape1 = 3, rows = [[1, 2, 3]]\<rparr>"
      "\<lparr>bits = 32, shape1 = 2, rows = [[3, 1]]\<rparr>" "\<lparr>bits = 32, shape1 = 2, rows = [[2, 2]]\<rparr>"
      "\<lparr>bits = 32, shape1 = 2, rows = [[1, 1]]\<rparr>"]
  by simp

text \<open>
  C8, as stated, fails: the assertions on the columns come before the alignment check,
  so a call whose arrays differ in length and whose first array has three columns raises
  an AssertionError, not a dimension-mismatch error.
\<close>

theorem misaligned_wrong_columns_counterexample:
  "shape0 \<lparr>bits = 32, shape1 = 3, rows = [[1, 2, 3]]\<rparr> \<noteq> shape0 \<lparr>bits = 32, shape1 = 2, rows = [[3, 1], [2, 2]]\<rparr> \<and>
   patterson_d \<lparr>bits = 32, shape1 = 3, rows = [[1, 2, 3]]\<rparr> \<lparr>bits = 32, shape1 = 2, rows = [[3, 1], [2, 2]]\<rparr>
       \<lparr>bits = 32, shape1 = 2, rows = [[3, 1], [2, 2]]\<rparr> \<lparr>bits = 32, shape1 = 2, rows = [[3, 1], [2, 2]]\<rparr> =
     Inl AssertionError \<and>
   patterson_d \<lparr>bits = 32, shape1 = 3, rows = [[1, 2, 3]]\<rparr> \<lparr>bits = 32, shape1 = 2, rows = [[3, 1], [2, 2]]\<rparr>
       \<lparr>bits = 32, shape1 = 2, rows = [[3, 1], [2, 2]]\<rparr> \<lparr>bits = 32, shape1 = 2, rows = [[3, 1], [2, 2]]\<rparr> \<noteq>
     Inl DimensionMismatchError"
  by (simp add: patterson_d_def shape0_def)

text \<open>
  C8, amended. When every input has exactly two columns and the inputs do not all have
  the same number of rows, each of \<open>patterson_f2\<close>, \<open>patterson_f3\<close> and \<open>patterson_d\<close>
  fails with a dimension-mismatch error and returns no arrays.
\<close>

theorem misaligned_dimension_error:
  "(shape1 aca = 2 \<and> shape1 acb = 2 \<and> shape0 acb \<noteq> shape0 aca \<longrightarrow>
      patterson_f2 aca acb = Inl DimensionMismatchError) \<and>
   (shape1 aca = 2 \<and> shape1 acb = 2 \<and> shape1 acc = 2 \<and>
    \<not> (shape0 acb = shape0 aca \<and> shape0 acc = shape0 aca) \<longrightarrow>
      patterson_f3 acc aca acb = Inl DimensionMismatchError) \<and>
   (shape1 aca = 2 \<and> shape1 acb = 2 \<and> shape1 acc = 2 \<and> shape1 acd = 2 \<and>
    \<not> (shape0 acb = shape0 aca \<and> shape0 acc = shape0 aca \<and> shape0 acd = shape0 aca) \<longrightarrow>
      patterson_d aca acb acc acd = Inl DimensionMismatchError)"
  by (auto simp: patterson_f2_def patterson_f3_def patterson_d_def check_dim0_aligned_def)

theorem misaligned_dimension_error_witness:
  "shape0 \<lparr>bits = 32, shape1 = 2, rows = [[3, 1]]\<rparr> \<noteq> shape0 \<lparr>bits = 32, shape1 = 2, rows = [[3, 1], [2, 2]]\<rparr> \<and>
   patterson_f2 \<lparr>bits = 32, shape1 = 2, rows = [[3, 1], [2, 2]]\<rparr> \<lparr>bits = 32, shape1 = 2, rows = [[3, 1]]\<rparr> =
     Inl DimensionMismatchError \<and>
   patterson_f3 \<lparr>bits = 32, shape1 = 2, rows = [[3, 1], [2, 2]]\<rparr> \<lparr>bits = 32, shape1 = 2, rows = [[3, 1], [2, 2]]\<rparr>
       \<lparr>bits = 32, shape1 = 2, rows = [[3, 1]]\<rparr> = Inl DimensionMismatchError \<and>
   patterson_d \<lparr>bits = 32, shape1 = 2, rows = [[3, 1], [2, 2]]\<rparr> \<lparr>bits = 32, shape1 = 2, rows = [[3, 1]]\<rparr>
       \<lparr>bits = 32, shape1 = 2, rows = [[3, 1], [2, 2]]\<rparr> \<lparr>bits = 32, shape1 = 2, rows = [[3, 1], [2, 2]]\<rparr> =
     Inl DimensionMismatchError"
  using misaligned_dimension_error [of "\<lparr>bits = 32, shape1 = 2, rows = [[3, 1], [2, 2]]\<rparr>"
      "\<lparr>bits = 32, shape1 = 2, rows = [[3, 1]]\<rparr>" "\<lparr>bits = 32, shape1 = 2, rows = [[3, 1], [2, 2]]\<rparr>"
      "\<lparr>bits = 32, shape1 = 2, rows = [[3, 1], [2, 2]]\<rparr>"]
  by (simp add: shape0_def)

section \<open>Called and missing genotype calls\<close>

lemma not_all_nonneg: "list_ex (\<lambda>x. x < 0) c = (\<not> list_all (\<lambda>x. (0::int) \<le> x) c)"
  by (induction c) auto

lemma map2_same:
  "map2 f (map g xs) (map h xs) = map (\<lambda>x. f (g x) (h x)) xs"
  by (induction xs) simp_all

lemma map_map_cong:
  assumes "\<And>r c. r \<in> set a \<Longrightarrow> c \<in> set r \<Longrightarrow> f c = g c"
  shows "map (map f) a = map (map g) a"
  using assms by (auto intro!: map_cong)

lemma list_all_one: "length c = 1 \<Longrightarrow> list_all P c = P (c ! 0)"
  by (cases c) simp_all

lemma list_all_two: "length c = 2 \<Longrightarrow> list_all P c = (P (c ! 0) \<and> P (c ! 1))"
  by (cases c; cases "tl c") auto

lemma diploid_called:
  "map2 (map2 (\<lambda>x y. (0::int) \<le> x \<and> 0 \<le> y)) (allele_at 0 a) (allele_at 1 a) =
   map (map (\<lambda>c. 0 \<le> c ! 0 \<and> 0 \<le> c ! 1)) a"
  by (simp add: allele_at_def map2_same)

lemma is_called_Dim2:
  "is_called (Dim2 a) = Inr (map (map (list_all (\<lambda>x. 0 \<le> x))) (calls_of (Dim2 a)))"
  by (simp add: is_called_def check_genotype_array_def calls2_def o_def)

lemma is_called_Dim3:
  assumes "valid_genotypes (Dim3 p a)"
  shows "is_called (Dim3 p a) = Inr (map (map (list_all (\<lambda>x. 0 \<le> x))) a)"
proof -
  have len: "length c = p" if "r \<in> set a" and "c \<in> set r" for r c
    using assms that by (auto simp: list_all_iff)
  consider "p = HAPLOID" | "p \<noteq> HAPLOID" "p = DIPLOID" | "p \<noteq> HAPLOID" "p \<noteq> DIPLOID"
    by blast
  then show ?thesis
  proof cases
    case 1
    have "map (map (\<lambda>c. 0 \<le> c ! 0)) a = map (map (list_all (\<lambda>x. 0 \<le> x))) a"
      using len 1 by (intro map_map_cong) (simp add: list_all_one HAPLOID_def)
    with 1 show ?thesis
      by (simp add: is_called_def check_genotype_array_def calls2_def allele_at_def o_def)
  next
    case 2
    have "map (map (\<lambda>c. 0 \<le> c ! 0 \<and> 0 \<le> c ! 1)) a = map (map (list_all (\<lambda>x. 0 \<le> x))) a"
      using len 2 by (intro map_map_cong) (simp add: list_all_two DIPLOID_def)
    with 2 show ?thesis
      by (simp add: is_called_def check_genotype_array_def calls3_def diploid_called
          del: One_nat_def)
  next
    case 3
    then show ?thesis
      by (simp add: is_called_def check_genotype_array_def calls3_def)
  qed
qed

lemma diploid_missing:
  "map2 (map2 (\<lambda>x y. x < (0::int) \<or> y < 0)) (allele_at 0 a) (allele_at 1 a) =
   map (map (\<lambda>c. c ! 0 < 0 \<or> c ! 1 < 0)) a"
  by (simp add: allele_at_def map2_same)

lemma is_missing_Dim2:
  "is_missing (Dim2 a) = Inr (map (map (list_ex (\<lambda>x. x < 0))) (calls_of (Dim2 a)))"
  by (simp add: is_missing_def check_genotype_array_def calls2_def o_def)

lemma is_missing_Dim3:
  assumes "valid_genotypes (Dim3 p a)"
  shows "is_missing (Dim3 p a) = Inr (map (map (list_ex (\<lambda>x. x < 0))) a)"
proof -
  have len: "length c = p" if "r \<in> set a" and "c \<in> set r" for r c
    using assms that by (auto simp: list_all_iff)
  consider "p = HAPLOID" | "p \<noteq> HAPLOID" "p = DIPLOID" | "p \<noteq> HAPLOID" "p \<noteq> DIPLOID"
    by blast
  then show ?thesis
  proof cases
    case 1
    have "map (map (\<lambda>c. c ! 0 < 0)) a = map (map (list_ex (\<lambda>x. x < 0))) a"
      using len 1
      by (intro map_map_cong) (simp add: not_all_nonneg list_all_one HAPLOID_def not_le)
    with 1 show ?thesis
      by (simp add: is_missing_def check_genotype_array_def calls2_def allele_at_def o_def)
  next
    case 2
    have "map (map (\<lambda>c. c ! 0 < 0 \<or> c ! 1 < 0)) a = map (map (list_ex (\<lambda>x. x < 0))) a"
      using len 2
      by (intro map_map_cong) (auto simp: not_all_nonneg list_all_two DIPLOID_def not_le)
    with 2 show ?thesis
      by (simp add: is_missing_def check_genotype_array_def calls3_def diploid_missing
          del: One_nat_def)
  next
    case 3
    then show ?thesis
      by (simp add: is_missing_def check_genotype_array_def calls3_def)
  qed
qed

text \<open>
  C10. On a valid genotype array (two-dimensional haploid, or three-dimensional of any
  ploidy) both predicates return a table with one entry for every call of the array, in
  the order of the array: \<open>is_called\<close> says of a call whether all its alleles are
  non-negative, \<open>is_missing\<close> whether one of them is negative. So \<open>is_missing\<close> is the
  negation of \<open>is_called\<close> element by element: every call is either called or missing,
  never both and never neither.
\<close>

theorem is_missing_negates_is_called:
  assumes "valid_genotypes g"
  shows "\<exists>c m. is_called g = Inr c \<and> is_missing g = Inr m \<and>
           c = map (map (list_all (\<lambda>x. 0 \<le> x))) (calls_of g) \<and>
           m = map (map (list_ex (\<lambda>x. x < 0))) (calls_of g) \<and>
           length c = n_variants g \<and>
           m = map (map Not) c"
proof (cases g)
  case (Dim2 a)
  then show ?thesis
    using is_called_Dim2 [of a] is_missing_Dim2 [of a]
    by (simp add: o_def not_le)
next
  case (Dim3 p a)
  then show ?thesis
    using assms is_called_Dim3 [of p a] is_missing_Dim3 [of p a]
    by (simp add: o_def not_all_nonneg)
next
  case (DimOther n)
  with assms show ?thesis by simp
qed

theorem is_missing_negates_is_called_witness:
  "valid_genotypes (Dim3 2 [[[0, 0], [0, 1]], [[0, 1], [1, 1]], [[0, 2], [- 1, - 1]]]) \<and>
   is_called (Dim3 2 [[[0, 0], [0, 1]], [[0, 1], [1, 1]], [[0, 2], [- 1, - 1]]]) =
     Inr [[True, True], [True, True], [True, False]] \<and>
   is_missing (Dim3 2 [[[0, 0], [0, 1]], [[0, 1], [1, 1]], [[0, 2], [- 1, - 1]]]) =
     Inr [[False, False], [False, False], [False, True]] \<and>
   valid_genotypes (Dim2 [[0, 1], [1, 1], [2, - 1]]) \<and>
   is_called (Dim2 [[0, 1], [1, 1], [2, - 1]]) =
     Inr [[True, True], [True, True], [True, False]] \<and>
   is_missing (Dim2 [[0, 1], [1, 1], [2, - 1]]) =
     Inr [[False, False], [False, False], [False, True]] \<and>
   valid_genotypes (Dim3 3 [[[0, 0, 0], [0, 0, 1]], [[0, 1, 2], [- 1, - 1, - 1]]]) \<and>
   is_called (Dim3 3 [[[0, 0, 0], [0, 0, 1]], [[0, 1, 2], [- 1, - 1, - 1]]]) =
     Inr [[True, True], [True, False]] \<and>
   is_missing (Dim3 3 [[[0, 0, 0], [0, 0, 1]], [[0, 1, 2], [- 1, - 1, - 1]]]) =
     Inr [[False, False], [False, True]] \<and>
   valid_genotypes (Dim3 1 [[[0], [- 1]], [[2], [1]]]) \<and>
   is_called (Dim3 1 [[[0], [- 1]], [[2], [1]]]) = Inr [[True, False], [True, True]] \<and>
   is_missing (Dim3 1 [[[0], [- 1]], [[2], [1]]]) = Inr [[False, True], [False, False]]"
  using is_missing_negates_is_called
      [of "Dim3 2 [[[0, 0], [0, 1]], [[0, 1], [1, 1]], [[0, 2], [- 1, - 1]]]"]
    is_missing_negates_is_called [of "Dim2 [[0, 1], [1, 1], [2, - 1]]"]
    is_missing_negates_is_called
      [of "Dim3 3 [[[0, 0, 0], [0, 0, 1]], [[0, 1, 2], [- 1, - 1, - 1]]]"]
    is_missing_negates_is_called [of "Dim3 1 [[[0], [- 1]], [[2], [1]]]"]
  by (simp add: is_called_def is_missing_def check_genotype_array_def calls2_def calls3_def
      allele_at_def HAPLOID_def DIPLOID_def)

section \<open>Properties of the jackknife\<close>

lemma set_mask_all_Inr:
  assumes "\<forall>m \<in> set ms. i < length (mask m)"
  shows "set_mask_all i b ms = Inr (map (\<lambda>m. m\<lparr>mask := (mask m)[i := b]\<rparr>) ms)"
  using assms by (induction ms) (simp_all add: set_mask_def)

lemma set_mask_all_unmasked:
  assumes "\<forall>v \<in> set vs. i < length v"
  shows "set_mask_all i True (map unmasked vs) = Inr (map (masked_at i) vs)"
proof -
  have "set_mask_all i True (map unmasked vs) =
      Inr (map (\<lambda>m. m\<lparr>mask := (mask m)[i := True]\<rparr>) (map unmasked vs))"
    using assms by (intro set_mask_all_Inr) (simp add: unmasked_def)
  then show ?thesis
    by (simp add: unmasked_def masked_at_def)
qed

lemma set_mask_all_masked_at:
  assumes "\<forall>v \<in> set vs. i < length v"
  shows "set_mask_all i False (map (masked_at i) vs) = Inr (map unmasked vs)"
proof -
  have "set_mask_all i False (map (masked_at i) vs) =
      Inr (map (\<lambda>m. m\<lparr>mask := (mask m)[i := False]\<rparr>) (map (masked_at i) vs))"
    using assms by (intro set_mask_all_Inr) (simp add: masked_at_def)
  moreover have "(replicate n False)[i := False] = replicate n False" for n
    by (cases "i < n") (simp_all add: list_update_same_conv list_update_beyond)
  ultimately show ?thesis
    by (simp add: unmasked_def masked_at_def)
qed

lemma jackknife_loop_unmasked:
  assumes "\<forall>i \<in> set is. \<forall>v \<in> set vs. i < length v"
  shows "jackknife_loop stat is (map unmasked vs) vj =
         Inr (map unmasked vs, vj @ map (\<lambda>i. stat (map (masked_at i) vs)) is)"
  using assms
proof (induction "is" arbitrary: vj)
  case Nil
  then show ?case by simp
next
  case (Cons i "is")
  then have i: "\<forall>v \<in> set vs. i < length v"
    by simp
  show ?case
    using Cons by (simp add: set_mask_all_unmasked [OF i] set_mask_all_masked_at [OF i])
qed

lemma jackknife_init_valid:
  assumes "valid_values values"
  shows "jackknife_init values = Inr (series_length values, map unmasked (series values))"
  using assms
  by (cases "values")
    (auto simp: jackknife_init_def valid_values_def series_length_def clear_mask_def
      ma_asarray_def unmasked_def split: list.splits)

lemma jackknife_replicates_valid:
  assumes "valid_values values"
  shows "jackknife_replicates values stat =
         Inr (series_length values, map unmasked (series values),
              map (\<lambda>i. stat (map (masked_at i) (series values))) [0..<series_length values])"
proof -
  have "\<forall>i \<in> set [0..<series_length values]. \<forall>v \<in> set (series values). i < length v"
    using assms by (simp add: valid_values_def list_all_iff)
  then show ?thesis
    by (simp add: jackknife_replicates_def jackknife_init_valid [OF assms]
        jackknife_loop_unmasked)
qed

text \<open>
  C2. After a full run of the jackknife loop every masked array holds the input series
  it was made from, with no element masked; and replicate \<open>i\<close> is the statistic of the
  series with element \<open>i\<close>, and no other, masked. This holds for every statistic and for
  every series or tuple of series of equal length.
\<close>

theorem jackknife_masking_isolation:
  assumes "valid_values values"
  shows "\<exists>ms vj. jackknife_replicates values stat = Inr (series_length values, ms, vj) \<and>
           map data ms = series values \<and>
           list_all (\<lambda>m. mask m = replicate (length (data m)) False) ms \<and>
           vj = map (\<lambda>i. stat (map (masked_at i) (series values))) [0..<series_length values]"
  using jackknife_replicates_valid [OF assms, of stat]
  by (simp add: unmasked_def list_all_iff o_def)

theorem jackknife_masking_isolation_witness:
  "valid_values (Tuple [[Fin 1, Fin 2, Fin 3], [Fin 4, Fin 5, Fin 6]]) \<and>
   jackknife_replicates (Tuple [[Fin 1, Fin 2, Fin 3], [Fin 4, Fin 5, Fin 6]])
       (\<lambda>ms. f_div (ma_sum (ms ! 0)) (ma_sum (ms ! 1))) =
     Inr (3,
       [\<lparr>data = [Fin 1, Fin 2, Fin 3], mask = [False, False, False]\<rparr>,
        \<lparr>data = [Fin 4, Fin 5, Fin 6], mask = [False, False, False]\<rparr>],
       [Fin (5 / 11), Fin (4 / 10), Fin (3 / 9)])"
  using jackknife_masking_isolation [of "Tuple [[Fin 1, Fin 2, Fin 3], [Fin 4, Fin 5, Fin 6]]"
      "\<lambda>ms. f_div (ma_sum (ms ! 0)) (ma_sum (ms ! 1))"]
  by (simp add: valid_values_def series_length_def jackknife_replicates_def jackknife_init_def
      clear_mask_def ma_asarray_def set_mask_def ma_sum_def ma_compressed_def np_sum_def
      upt_rec numeral_3_eq_3)

section \<open>The result of the jackknife\<close>

lemma jackknife_valid:
  assumes "valid_values values" and "0 < series_length values"
  shows "jackknife values stat =
     (let vj = map (\<lambda>i. stat (map (masked_at i) (series values))) [0..<series_length values];
          m = np_mean vj
      in Inr (m,
              f_sqrt (f_mul (Fin ((real (series_length values) - 1) / real (series_length values)))
                        (np_sum (map (\<lambda>x. f_square (f_sub x m)) vj))),
              vj))"
  using assms(2)
  by (simp add: jackknife_def jackknife_replicates_valid [OF assms(1)] Let_def)

section \<open>Properties of the blockwise D statistic\<close>

lemma length_windows: "0 < blen \<Longrightarrow> length (windows blen xs) = length xs div blen"
proof (induction blen xs rule: windows.induct)
  case (1 blen xs)
  show ?case
  proof (cases "length xs < blen")
    case True
    then show ?thesis
      by (simp add: windows.simps [of blen xs])
  next
    case False
    with 1 have "length (windows blen (drop blen xs)) = (length xs - blen) div blen"
      by simp
    with False 1(2) show ?thesis
      by (simp add: windows.simps [of blen xs] le_div_geq)
  qed
qed

lemma nth_windows:
  "0 < blen \<Longrightarrow> j < length xs div blen \<Longrightarrow>
     windows blen xs ! j = take blen (drop (j * blen) xs)"
proof (induction blen xs arbitrary: j rule: windows.induct)
  case (1 blen xs)
  have ge: "\<not> length xs < blen"
    using 1(2,3) by (cases "length xs < blen") simp_all
  show ?case
  proof (cases j)
    case 0
    with ge 1(2) show ?thesis
      by (simp add: windows.simps [of blen xs])
  next
    case (Suc j')
    have "length xs div blen = Suc ((length xs - blen) div blen)"
      using ge 1(2) by (simp add: le_div_geq)
    with 1(3) Suc have "j' < length (drop blen xs) div blen"
      by simp
    with 1 ge have "windows blen (drop blen xs) ! j' = take blen (drop (j' * blen) (drop blen xs))"
      by simp
    with ge 1(2) Suc show ?thesis
      by (simp add: windows.simps [of blen xs] add.commute)
  qed
qed

lemma patterson_d_lengths:
  assumes "shape1 aca = 2" and "shape1 acb = 2" and "shape1 acc = 2" and "shape1 acd = 2"
    and "shape0 acb = shape0 aca" and "shape0 acc = shape0 aca" and "shape0 acd = shape0 aca"
  shows "\<exists>num den. patterson_d aca acb acc acd = Inr (num, den) \<and>
           length num = shape0 aca \<and> length den = shape0 aca"
  using assms
  by (simp add: patterson_d_def check_dim0_aligned_def Let_def shape0_def length_column
      length_to_frequencies)

text \<open>
  C9, as stated, fails on an input with no variant: every block length divides zero,
  there is no block, and \<^verbatim>\<open>(n - 1) / n\<close> in \<open>jackknife\<close> raises a ZeroDivisionError.
\<close>

theorem blockwise_no_variant_counterexample:
  "1 dvd shape0 \<lparr>bits = 32, shape1 = 2, rows = []\<rparr> \<and>
   blockwise_patterson_d \<lparr>bits = 32, shape1 = 2, rows = []\<rparr> \<lparr>bits = 32, shape1 = 2, rows = []\<rparr>
       \<lparr>bits = 32, shape1 = 2, rows = []\<rparr> \<lparr>bits = 32, shape1 = 2, rows = []\<rparr> 1 = Inl ZeroDivisionError"
  by (simp add: blockwise_patterson_d_def patterson_d_def check_dim0_aligned_def shape0_def
      column_def to_frequencies_def moving_statistic_def windows.simps jackknife_def
      jackknife_replicates_def jackknife_init_def)

text \<open>
  C9, amended. For four row-aligned allele-count arrays with two columns each and
  \<open>n\<close> variants, \<open>n\<close> at least 1, and for every block length \<open>blen\<close> that divides \<open>n\<close>,
  \<open>blockwise_patterson_d\<close> returns arrays \<open>vb\<close> and \<open>vj\<close> of \<open>n div blen\<close> values each, and
  entry \<open>j\<close> of \<open>vb\<close> is the NaN-skipping sum of the numerators of block \<open>j\<close> divided by the
  NaN-skipping sum of its denominators, block \<open>j\<close> being the \<open>blen\<close> variants from
  \<open>j * blen\<close> on.
\<close>

theorem blockwise_patterson_d_blocks:
  assumes "shape1 aca = 2" and "shape1 acb = 2" and "shape1 acc = 2" and "shape1 acd = 2"
    and "shape0 acb = shape0 aca" and "shape0 acc = shape0 aca" and "shape0 acd = shape0 aca"
    and "0 < shape0 aca" and "0 < blen" and "blen dvd shape0 aca"
  shows "\<exists>num den m se z vb vj.
           patterson_d aca acb acc acd = Inr (num, den) \<and>
           blockwise_patterson_d aca acb acc acd blen = Inr (m, se, z, vb, vj) \<and>
           length vb = shape0 aca div blen \<and>
           length vj = shape0 aca div blen \<and>
           (\<forall>j < shape0 aca div blen.
              vb ! j = f_div (np_nansum (take blen (drop (j * blen) num)))
                         (np_nansum (take blen (drop (j * blen) den))))"
proof -
  define nb where "nb = shape0 aca div blen"
  obtain num den where d: "patterson_d aca acb acc acd = Inr (num, den)"
    "length num = shape0 aca" "length den = shape0 aca"
    using patterson_d_lengths [OF assms(1-7)] by blast
  define num_bsum where "num_bsum = moving_statistic num np_nansum blen"
  define den_bsum where "den_bsum = moving_statistic den np_nansum blen"
  define vb where "vb = map2 f_div num_bsum den_bsum"
  have nb: "0 < nb"
    using assms(8,9,10) by (auto simp: nb_def elim!: dvdE)
  have len: "length num_bsum = nb" "length den_bsum = nb"
    using d(2,3) assms(9)
    by (simp_all add: num_bsum_def den_bsum_def moving_statistic_def length_windows nb_def)
  have at: "num_bsum ! j = np_nansum (take blen (drop (j * blen) num))"
    "den_bsum ! j = np_nansum (take blen (drop (j * blen) den))" if "j < nb" for j
    using that d(2,3) assms(9)
    by (simp_all add: num_bsum_def den_bsum_def moving_statistic_def length_windows
        nth_windows nb_def)
  have valid: "valid_values (Tuple [num_bsum, den_bsum])"
    "series_length (Tuple [num_bsum, den_bsum]) = nb"
    using len by (simp_all add: valid_values_def series_length_def)
  obtain m se vj where jk: "jackknife (Tuple [num_bsum, den_bsum]) ratio_of_sums = Inr (m, se, vj)"
    "length vj = nb"
    using jackknife_valid [OF valid(1), of ratio_of_sums] nb valid(2)
    by (simp add: Let_def)
  have res: "blockwise_patterson_d aca acb acc acd blen = Inr (m, se, f_div m se, vb, vj)"
    using d(1) jk(1)
    by (simp add: blockwise_patterson_d_def Let_def num_bsum_def den_bsum_def vb_def)
  have vb_len: "length vb = nb"
    using len by (simp add: vb_def)
  have vb_at: "vb ! j = f_div (np_nansum (take blen (drop (j * blen) num)))
                         (np_nansum (take blen (drop (j * blen) den)))" if "j < nb" for j
    using that len at [OF that] by (simp add: vb_def)
  show ?thesis
    using d(1) res vb_len jk(2) vb_at unfolding nb_def by blast
qed

theorem blockwise_patterson_d_blocks_witness:
  "shape0 \<lparr>bits = 32, shape1 = 2, rows = [[3, 1], [2, 2], [1, 3], [4, 0]]\<rparr> = 4 \<and> (2::nat) dvd 4 \<and>
   patterson_d
       \<lparr>bits = 32, shape1 = 2, rows = [[3, 1], [2, 2], [1, 3], [4, 0]]\<rparr>
       \<lparr>bits = 32, shape1 = 2, rows = [[1, 3], [4, 0], [2, 2], [2, 2]]\<rparr>
       \<lparr>bits = 32, shape1 = 2, rows = [[1, 1], [0, 4], [1, 3], [4, 0]]\<rparr>
       \<lparr>bits = 32, shape1 = 2, rows = [[0, 2], [1, 3], [0, 0], [2, 2]]\<rparr> =
     Inr ([Fin (1 / 4), Fin (1 / 8), NaN, Fin (1 / 4)],
          [Fin (5 / 16), Fin (1 / 8), NaN, Fin (1 / 4)]) \<and>
   blockwise_patterson_d
       \<lparr>bits = 32, shape1 = 2, rows = [[3, 1], [2, 2], [1, 3], [4, 0]]\<rparr>
       \<lparr>bits = 32, shape1 = 2, rows = [[1, 3], [4, 0], [2, 2], [2, 2]]\<rparr>
       \<lparr>bits = 32, shape1 = 2, rows = [[1, 1], [0, 4], [1, 3], [4, 0]]\<rparr>
       \<lparr>bits = 32, shape1 = 2, rows = [[0, 2], [1, 3], [0, 0], [2, 2]]\<rparr> 2 =
     Inr (Fin (13 / 14), Fin (1 / 14), Fin 13, [Fin (6 / 7), Fin 1], [Fin 1, Fin (6 / 7)])"
proof -
  have s: "sqrt (1 / 196 :: real) = 1 / 14"
    by (rule real_sqrt_unique) (simp_all add: power2_eq_square)
  have d: "patterson_d
       \<lparr>bits = 32, shape1 = 2, rows = [[3, 1], [2, 2], [1, 3], [4, 0]]\<rparr>
       \<lparr>bits = 32, shape1 = 2, rows = [[1, 3], [4, 0], [2, 2], [2, 2]]\<rparr>
       \<lparr>bits = 32, shape1 = 2, rows = [[1, 1], [0, 4], [1, 3], [4, 0]]\<rparr>
       \<lparr>bits = 32, shape1 = 2, rows = [[0, 2], [1, 3], [0, 0], [2, 2]]\<rparr> =
     Inr ([Fin (1 / 4), Fin (1 / 8), NaN, Fin (1 / 4)],
          [Fin (5 / 16), Fin (1 / 8), NaN, Fin (1 / 4)])"
    by (simp add: patterson_d_def check_dim0_aligned_def shape0_def
        column_def to_frequencies_def int_truediv_def of_count_def d_factor_def f_sub_def)
  have w: "windows 2 [p, q, r, t] = [[p, q], [r, t]]" for p q r t :: npfloat
    by (simp add: windows.simps)
  have jk: "jackknife (Tuple [[Fin (3 / 8), Fin (1 / 4)], [Fin (7 / 16), Fin (1 / 4)]])
      ratio_of_sums = Inr (Fin (13 / 14), Fin (1 / 14), [Fin 1, Fin (6 / 7)])"
    by (simp add: jackknife_def jackknife_replicates_def jackknife_init_def clear_mask_def
        ma_asarray_def set_mask_def ratio_of_sums_def ma_sum_def ma_compressed_def np_sum_def
        np_mean_def f_sub_def f_square_def upt_rec s)
  have b: "blockwise_patterson_d
       \<lparr>bits = 32, shape1 = 2, rows = [[3, 1], [2, 2], [1, 3], [4, 0]]\<rparr>
       \<lparr>bits = 32, shape1 = 2, rows = [[1, 3], [4, 0], [2, 2], [2, 2]]\<rparr>
       \<lparr>bits = 32, shape1 = 2, rows = [[1, 1], [0, 4], [1, 3], [4, 0]]\<rparr>
       \<lparr>bits = 32, shape1 = 2, rows = [[0, 2], [1, 3], [0, 0], [2, 2]]\<rparr> 2 =
     Inr (Fin (13 / 14), Fin (1 / 14), Fin 13, [Fin (6 / 7), Fin 1], [Fin 1, Fin (6 / 7)])"
    by (simp add: blockwise_patterson_d_def d moving_statistic_def w np_nansum_def np_sum_def jk)
  show ?thesis
    using blockwise_patterson_d_blocks
      [of "\<lparr>bits = 32, shape1 = 2, rows = [[3, 1], [2, 2], [1, 3], [4, 0]]\<rparr>"
          "\<lparr>bits = 32, shape1 = 2, rows = [[1, 3], [4, 0], [2, 2], [2, 2]]\<rparr>"
          "\<lparr>bits = 32, shape1 = 2, rows = [[1, 1], [0, 4], [1, 3], [4, 0]]\<rparr>"
          "\<lparr>bits = 32, shape1 = 2, rows = [[0, 2], [1, 3], [0, 0], [2, 2]]\<rparr>" 2]
    by (simp add: d b shape0_def)
qed

end
